theory Spec2Isabelle
  imports Complex_Main
begin

section \<open>The SPH fluid simulator of engine/physics/sph.py\<close>

text \<open>
  The simulator keeps its particles in numpy arrays of 32-bit floats. The embedding
  reads every float as a real number: rounding, overflow, infinities and NaN are not
  part of it. A pass that divides by zero, and so writes an infinity or a NaN, ends with
  the result \<open>NonFinite\<close>; the range of the floats is modelled in one place, line 41
  of the constructor, where it decides whether Python raises. An array of shape
  \<open>(n, 3)\<close> is a list of triples, an array of shape \<open>(n)\<close> a list of reals. The loops run over \<open>range(particle_count)\<close>, here
  \<open>[0..<n]\<close>; the iterations of a \<open>prange\<close> loop write disjoint slots and read
  nothing another iteration writes, so they are taken in index order.
\<close>

subsection \<open>Three-component vectors\<close>

type_synonym vec3 = "real \<times> real \<times> real"

fun vget :: "vec3 \<Rightarrow> nat \<Rightarrow> real" where
  "vget (x, y, z) k = (if k = 0 then x else if k = 1 then y else z)"

fun vset :: "vec3 \<Rightarrow> nat \<Rightarrow> real \<Rightarrow> vec3" where
  "vset (x, y, z) k a = (if k = 0 then (a, y, z) else if k = 1 then (x, a, z) else (x, y, a))"

fun vadd :: "vec3 \<Rightarrow> vec3 \<Rightarrow> vec3" where
  "vadd (x, y, z) (x', y', z') = (x + x', y + y', z + z')"

fun vsub :: "vec3 \<Rightarrow> vec3 \<Rightarrow> vec3" where
  "vsub (x, y, z) (x', y', z') = (x - x', y - y', z - z')"

text \<open>The product of two arrays is taken component by component, as numpy does.\<close>

fun vmul :: "vec3 \<Rightarrow> vec3 \<Rightarrow> vec3" where
  "vmul (x, y, z) (x', y', z') = (x * x', y * y', z * z')"

fun smul :: "real \<Rightarrow> vec3 \<Rightarrow> vec3" where
  "smul a (x, y, z) = (a * x, a * y, a * z)"

fun vscale :: "vec3 \<Rightarrow> real \<Rightarrow> vec3" where
  "vscale (x, y, z) a = (x * a, y * a, z * a)"

fun vdivs :: "vec3 \<Rightarrow> real \<Rightarrow> vec3" where
  "vdivs (x, y, z) a = (x / a, y / a, z / a)"

definition vzero :: vec3 where
  "vzero = (0, 0, 0)"

subsection \<open>Errors\<close>

text \<open>
  The first four are the exceptions of the constructor: \<open>AmbiguousTruthValue\<close> and
  \<open>NegativeDimensions\<close> are the two \<open>ValueError\<close>s numpy raises, \<open>OverflowError\<close> and
  \<open>ZeroDivisionError\<close> those of Python's float power and division. \<open>NonFinite\<close> is
  no exception. The compiled passes raise nothing: where one divides by zero it stores
  an infinity or a NaN and goes on. The reals have no such value, so the model ends the
  step there with \<open>NonFinite\<close>, and \<open>Inr\<close> is a step whose every value is a real
  number.
\<close>

datatype error =
  AmbiguousTruthValue | NegativeDimensions | OverflowError | ZeroDivisionError | NonFinite

subsection \<open>Density and pressure pass\<close>

text \<open>The squared distance of particles \<open>i\<close> and \<open>j\<close> (lines 102-105 and 141-144).\<close>

definition dist_sq :: "vec3 list \<Rightarrow> nat \<Rightarrow> nat \<Rightarrow> real" where
  "dist_sq positions i j =
     (let dx = vget (positions ! i) 0 - vget (positions ! j) 0;
          dy = vget (positions ! i) 1 - vget (positions ! j) 1;
          dz = vget (positions ! i) 2 - vget (positions ! j) 2
      in dx * dx + dy * dy + dz * dz)"

text \<open>The cubic spline of lines 112-115, a function of \<open>h\<close> and \<open>q = r / h\<close>.\<close>

definition kernel_value :: "real \<Rightarrow> real \<Rightarrow> real" where
  "kernel_value h q =
     (if q \<le> 0.5 then 8.0 / (pi * h ^ 4) * (1 - 6 * q * q + 6 * q * q * q)
      else 8.0 / (pi * h ^ 4) * 2 * (1 - q) ^ 3)"

text \<open>
  What lines 107-116 add to the density for a pair at squared distance \<open>d\<close>. The two
  divisions are behind the test \<open>d < h * h\<close>, which fails for \<open>h = 0\<close>.
\<close>

definition kernel_term :: "real \<Rightarrow> real \<Rightarrow> real" where
  "kernel_term d h =
     (if d < h * h then
        (let r = sqrt d; q = r / h
         in if q \<le> 1.0 then kernel_value h q else 0)
      else 0)"

text \<open>The body of the inner loop over \<open>j\<close>, on the accumulator \<open>density\<close>.\<close>

definition density_step :: "vec3 list \<Rightarrow> real \<Rightarrow> nat \<Rightarrow> real \<Rightarrow> nat \<Rightarrow> real" where
  "density_step positions h i density j =
     (if i = j then density
      else density + kernel_term (dist_sq positions i j) h)"

definition density_sum :: "vec3 list \<Rightarrow> real \<Rightarrow> nat \<Rightarrow> nat \<Rightarrow> real" where
  "density_sum positions h n i = foldl (density_step positions h i) 0 [0..<n]"

text \<open>
  One iteration of the outer loop: the floored density and the pressure of particle
  \<open>i\<close> (lines 118-119). The pressure divides by \<open>rest_density\<close>; for
  \<open>rest_density = 0\<close> the quotient is an infinity or a NaN.
\<close>

definition density_pressure_at ::
  "vec3 list \<Rightarrow> real \<Rightarrow> real \<Rightarrow> real \<Rightarrow> nat \<Rightarrow> nat \<Rightarrow> error + (real \<times> real)" where
  "density_pressure_at positions h rest_density pressure_constant n i =
     (let density = density_sum positions h n i;
          di = max density (rest_density * 0.1)
      in if rest_density = 0 then Inl NonFinite
         else Inr (di, pressure_constant * (di / rest_density - 1.0)))"

fun densities_loop ::
  "vec3 list \<Rightarrow> real \<Rightarrow> real \<Rightarrow> real \<Rightarrow> nat \<Rightarrow> nat list \<Rightarrow>
   real list \<times> real list \<Rightarrow> error + (real list \<times> real list)" where
  "densities_loop positions h rest_density pressure_constant n [] dp = Inr dp"
| "densities_loop positions h rest_density pressure_constant n (i # is) (densities, pressures) =
     (case density_pressure_at positions h rest_density pressure_constant n i of
        Inl e \<Rightarrow> Inl e
      | Inr (di, pr) \<Rightarrow>
          densities_loop positions h rest_density pressure_constant n is
            (densities[i := di], pressures[i := pr]))"

definition calculate_densities_and_pressures ::
  "vec3 list \<Rightarrow> real list \<Rightarrow> real list \<Rightarrow> real \<Rightarrow> real \<Rightarrow> real \<Rightarrow> nat \<Rightarrow>
   error + (real list \<times> real list)" where
  "calculate_densities_and_pressures positions densities pressures smoothing_radius
       rest_density pressure_constant particle_count =
     densities_loop positions smoothing_radius rest_density pressure_constant particle_count
       [0..<particle_count] (densities, pressures)"

subsection \<open>Force pass\<close>

text \<open>
  The local \<open>grad_mag\<close> of \<open>compute_kernel_gradient\<close> (lines 172-176), a function
  of \<open>h\<close> and \<open>q = r / h\<close>.
\<close>

definition grad_mag :: "real \<Rightarrow> real \<Rightarrow> real" where
  "grad_mag h q =
     (if q \<le> 0.5 then 24.0 / (pi * h ^ 5) * q * (3.0 * q - 2.0)
      else (let g = 24.0 / (pi * h ^ 5) * (1.0 - q) ^ 2
            in if q > 1 / 10 ^ 8 then - g else 0.0))"

definition compute_kernel_gradient :: "real \<Rightarrow> real \<Rightarrow> real \<Rightarrow> real \<Rightarrow> real \<Rightarrow> vec3" where
  "compute_kernel_gradient dx dy dz r h =
     (let q = r / h;
          gm = grad_mag h q
      in if r > 1 / 10 ^ 8 then (dx / r * gm, dy / r * gm, dz / r * gm)
         else (0.0, 0.0, 0.0))"

text \<open>
  The body of the inner loop over \<open>j\<close> (lines 137-159), on the accumulators
  \<open>pressure_force\<close> and \<open>viscosity_force\<close>. The pressure term divides by
  \<open>2.0 * densities[j]\<close> and the viscosity by \<open>densities[j]\<close>; for a zero density both
  accumulators receive an infinity or a NaN.
\<close>

definition force_step ::
  "vec3 list \<Rightarrow> vec3 list \<Rightarrow> real list \<Rightarrow> real list \<Rightarrow> real \<Rightarrow> real \<Rightarrow> nat \<Rightarrow>
   vec3 \<times> vec3 \<Rightarrow> nat \<Rightarrow> error + (vec3 \<times> vec3)" where
  "force_step positions velocities densities pressures h viscosity i acc j =
     (case acc of (pressure_force, viscosity_force) \<Rightarrow>
      if i = j then Inr acc
      else
        (let dx = vget (positions ! i) 0 - vget (positions ! j) 0;
             dy = vget (positions ! i) 1 - vget (positions ! j) 1;
             dz = vget (positions ! i) 2 - vget (positions ! j) 2;
             d = dx * dx + dy * dy + dz * dz
         in if d < h * h then
              (let r = sqrt d
               in if r > 1 / 10 ^ 8 then
                    (let grad_kernel = compute_kernel_gradient dx dy dz r h
                     in if 2.0 * densities ! j = 0 then Inl NonFinite
                        else
                          (let pressure_term = (pressures ! i + pressures ! j) / (2.0 * densities ! j);
                               vel_diff = vsub (velocities ! j) (velocities ! i)
                           in Inr (vsub pressure_force (vscale grad_kernel pressure_term),
                                   vadd viscosity_force
                                     (vmul (smul viscosity vel_diff)
                                        (vdivs grad_kernel (densities ! j))))))
                  else Inr acc)
            else Inr acc))"

fun force_loop ::
  "vec3 list \<Rightarrow> vec3 list \<Rightarrow> real list \<Rightarrow> real list \<Rightarrow> real \<Rightarrow> real \<Rightarrow> nat \<Rightarrow>
   nat list \<Rightarrow> vec3 \<times> vec3 \<Rightarrow> error + (vec3 \<times> vec3)" where
  "force_loop positions velocities densities pressures h viscosity i [] acc = Inr acc"
| "force_loop positions velocities densities pressures h viscosity i (j # js) acc =
     (case force_step positions velocities densities pressures h viscosity i acc j of
        Inl e \<Rightarrow> Inl e
      | Inr acc' \<Rightarrow> force_loop positions velocities densities pressures h viscosity i js acc')"

text \<open>
  One iteration of the outer loop: the new value of \<open>forces[i]\<close>. Line 131 adds
  \<open>gravity[1]\<close> to the second component of what \<open>forces[i]\<close> holds; lines 162-163
  add the two accumulators. The compiled function does not check bounds: for a
  \<open>gravity\<close> of fewer than two elements the value read is unspecified, as that of
  \<open>gravity ! 1\<close> is.
\<close>

definition force_at ::
  "vec3 list \<Rightarrow> vec3 list \<Rightarrow> real list \<Rightarrow> real list \<Rightarrow> vec3 list \<Rightarrow> real \<Rightarrow> real \<Rightarrow>
   real list \<Rightarrow> nat \<Rightarrow> nat \<Rightarrow> error + vec3" where
  "force_at positions velocities densities pressures forces h viscosity gravity n i =
     (let f = vset (forces ! i) 1 (vget (forces ! i) 1 + gravity ! 1)
      in case force_loop positions velocities densities pressures h viscosity i [0..<n]
                ((0.0, 0.0, 0.0), (0.0, 0.0, 0.0)) of
           Inl e \<Rightarrow> Inl e
         | Inr (pressure_force, viscosity_force) \<Rightarrow>
             Inr (vadd (vadd f pressure_force) viscosity_force))"

fun forces_loop ::
  "vec3 list \<Rightarrow> vec3 list \<Rightarrow> real list \<Rightarrow> real list \<Rightarrow> real \<Rightarrow> real \<Rightarrow>
   real list \<Rightarrow> nat \<Rightarrow> nat list \<Rightarrow> vec3 list \<Rightarrow> error + vec3 list" where
  "forces_loop positions velocities densities pressures h viscosity gravity n [] forces =
     Inr forces"
| "forces_loop positions velocities densities pressures h viscosity gravity n (i # is) forces =
     (case force_at positions velocities densities pressures forces h viscosity gravity n i of
        Inl e \<Rightarrow> Inl e
      | Inr f \<Rightarrow>
          forces_loop positions velocities densities pressures h viscosity gravity n is
            (forces[i := f]))"

text \<open>The parameter \<open>kernel_constant\<close> is passed and not read.\<close>

definition calculate_forces ::
  "vec3 list \<Rightarrow> vec3 list \<Rightarrow> real list \<Rightarrow> real list \<Rightarrow> vec3 list \<Rightarrow> real \<Rightarrow> real \<Rightarrow>
   real \<Rightarrow> real list \<Rightarrow> nat \<Rightarrow> error + vec3 list" where
  "calculate_forces positions velocities densities pressures forces smoothing_radius viscosity
       kernel_constant gravity particle_count =
     forces_loop positions velocities densities pressures smoothing_radius viscosity gravity
       particle_count [0..<particle_count] forces"

subsection \<open>Integration and boundary pass\<close>

text \<open>The body of the loop over the axes (lines 200-205), on the row of particle \<open>i\<close>.\<close>

definition boundary_axis :: "vec3 \<Rightarrow> vec3 \<Rightarrow> real \<Rightarrow> vec3 \<times> vec3 \<Rightarrow> nat \<Rightarrow> vec3 \<times> vec3" where
  "boundary_axis boundary_min boundary_max boundary_damping pv j =
     (case pv of (p, v) \<Rightarrow>
      if vget p j < vget boundary_min j then
        (vset p j (vget boundary_min j), vset v j (vget v j * boundary_damping))
      else if vget p j > vget boundary_max j then
        (vset p j (vget boundary_max j), vset v j (vget v j * boundary_damping))
      else (p, v))"

definition integrate_particle ::
  "vec3 \<Rightarrow> vec3 \<Rightarrow> vec3 \<Rightarrow> real \<Rightarrow> vec3 \<Rightarrow> vec3 \<Rightarrow> real \<Rightarrow> vec3 \<times> vec3" where
  "integrate_particle p v f dt boundary_min boundary_max boundary_damping =
     (let acceleration = f;
          v1 = vadd v (vscale acceleration dt);
          p1 = vadd p (vscale v1 dt)
      in foldl (boundary_axis boundary_min boundary_max boundary_damping) (p1, v1) [0..<3])"

definition integrate_step ::
  "vec3 list \<Rightarrow> real \<Rightarrow> vec3 \<Rightarrow> vec3 \<Rightarrow> real \<Rightarrow> vec3 list \<times> vec3 list \<Rightarrow> nat \<Rightarrow>
   vec3 list \<times> vec3 list" where
  "integrate_step forces dt boundary_min boundary_max boundary_damping pvs i =
     (case pvs of (positions, velocities) \<Rightarrow>
      case integrate_particle (positions ! i) (velocities ! i) (forces ! i) dt
             boundary_min boundary_max boundary_damping of
        (p, v) \<Rightarrow> (positions[i := p], velocities[i := v]))"

definition integrate_motion ::
  "vec3 list \<Rightarrow> vec3 list \<Rightarrow> vec3 list \<Rightarrow> real \<Rightarrow> vec3 \<Rightarrow> vec3 \<Rightarrow> real \<Rightarrow> nat \<Rightarrow>
   vec3 list \<times> vec3 list" where
  "integrate_motion positions velocities forces dt boundary_min boundary_max boundary_damping
       particle_count =
     foldl (integrate_step forces dt boundary_min boundary_max boundary_damping)
       (positions, velocities) [0..<particle_count]"

subsection \<open>The simulation object\<close>

record sph_system =
  particle_count :: int
  smoothing_radius :: real
  rest_density :: real
  viscosity :: real
  pressure_stiffness :: real
  gravity :: "real list"
  positions :: "vec3 list"
  velocities :: "vec3 list"
  densities :: "real list"
  pressures :: "real list"
  forces :: "vec3 list"
  boundary_min :: vec3
  boundary_max :: vec3
  boundary_damping :: real
  kernel_constant :: real
  pressure_constant :: real

text \<open>
  The argument \<open>gravity\<close> of the constructor (the parameters are primed here,
  the unprimed names being the fields): \<open>None\<close>, a Python list of floats or a
  one-dimensional numpy array. Line 26 takes its truth value in \<open>gravity or [...]\<close>:
  \<open>None\<close> is false, a list is true when it is not empty, an array of one element has
  the truth value of that element, and numpy raises \<open>ValueError\<close> for an array of more
  than one element (the truth value of an array with more than one element is
  ambiguous). \<open>GArray x xs\<close> is the array of the elements \<open>x # xs\<close>; the empty
  array, whose truth value depends on the version of numpy, is left out.
\<close>

datatype gravity_arg = GNone | GList "real list" | GArray real "real list"

fun truth_value :: "gravity_arg \<Rightarrow> error + bool" where
  "truth_value GNone = Inr False"
| "truth_value (GList xs) = Inr (xs \<noteq> [])"
| "truth_value (GArray x []) = Inr (x \<noteq> 0)"
| "truth_value (GArray x (y # zs)) = Inl AmbiguousTruthValue"

fun elements :: "gravity_arg \<Rightarrow> real list" where
  "elements GNone = []"
| "elements (GList xs) = xs"
| "elements (GArray x xs) = x # xs"

definition gravity_or_default :: "gravity_arg \<Rightarrow> error + real list" where
  "gravity_or_default gravity' =
     (case truth_value gravity' of
        Inl e \<Rightarrow> Inl e
      | Inr b \<Rightarrow> Inr (if b then elements gravity' else [0.0, - 9.81, 0.0]))"

text \<open>
  The constructor. \<open>uniform i\<close> is row \<open>i\<close> of the sample that
  \<open>np.random.uniform(-1.0, 1.0, (particle_count, 3))\<close> draws; numpy raises
  \<open>ValueError\<close> for a negative dimension; memory is not bounded. Line 41 is
  \<open>8.0 / (np.pi * smoothing_radius**4)\<close> in Python floats, whose range decides whether
  it raises. The power raises \<open>OverflowError\<close> when its value rounds to infinity, that
  is from \<open>2^1024 - 2^970\<close> on. It is \<open>0.0\<close> when its value rounds to zero, that is
  up to \<open>2^-1075\<close>, half the least positive float; the product with \<open>np.pi\<close> is
  \<open>0.0\<close> in that case only, and then the division raises \<open>ZeroDivisionError\<close>. The
  statements run in the order of the source, so the first error wins; an exception
  leaves the caller without an object.
\<close>

definition pow4_overflows :: "real \<Rightarrow> bool" where
  "pow4_overflows h = (2 ^ 1024 - 2 ^ 970 \<le> h ^ 4)"

definition pow4_is_zero :: "real \<Rightarrow> bool" where
  "pow4_is_zero h = (h ^ 4 \<le> 1 / 2 ^ 1075)"

definition init ::
  "int \<Rightarrow> real \<Rightarrow> real \<Rightarrow> real \<Rightarrow> real \<Rightarrow> gravity_arg \<Rightarrow> (nat \<Rightarrow> vec3) \<Rightarrow> error + sph_system" where
  "init particle_count' smoothing_radius' rest_density' viscosity' pressure_stiffness' gravity'
       uniform =
     (case gravity_or_default gravity' of
        Inl e \<Rightarrow> Inl e
      | Inr g \<Rightarrow>
          if particle_count' < 0 then Inl NegativeDimensions
          else if pow4_overflows smoothing_radius' then Inl OverflowError
          else if pow4_is_zero smoothing_radius' then Inl ZeroDivisionError
          else Inr \<lparr>
            particle_count = particle_count',
            smoothing_radius = smoothing_radius',
            rest_density = rest_density',
            viscosity = viscosity',
            pressure_stiffness = pressure_stiffness',
            gravity = g,
            positions = map uniform [0..<nat particle_count'],
            velocities = replicate (nat particle_count') (0, 0, 0),
            densities = replicate (nat particle_count') rest_density',
            pressures = replicate (nat particle_count') 0,
            forces = replicate (nat particle_count') (0, 0, 0),
            boundary_min = (- 3.0, - 1.0, - 3.0),
            boundary_max = (3.0, 5.0, 3.0),
            boundary_damping = - 0.5,
            kernel_constant = 8.0 / (pi * smoothing_radius' ^ 4),
            pressure_constant = pressure_stiffness' * rest_density' \<rparr>)"

text \<open>
  \<open>update\<close> runs the three passes in order and then fills \<open>forces\<close> with zeros.
  It has no statement that looks at \<open>dt\<close> before the integration uses it.
\<close>

definition update :: "sph_system \<Rightarrow> real \<Rightarrow> error + sph_system" where
  "update s dt =
     (let n = nat (particle_count s)
      in case calculate_densities_and_pressures (positions s) (densities s) (pressures s)
                (smoothing_radius s) (rest_density s) (pressure_constant s) n of
           Inl e \<Rightarrow> Inl e
         | Inr (ds, ps) \<Rightarrow>
             (case calculate_forces (positions s) (velocities s) ds ps (forces s)
                     (smoothing_radius s) (viscosity s) (kernel_constant s) (gravity s) n of
                Inl e \<Rightarrow> Inl e
              | Inr fs \<Rightarrow>
                  (case integrate_motion (positions s) (velocities s) fs dt
                          (boundary_min s) (boundary_max s) (boundary_damping s) n of
                     (pos, vel) \<Rightarrow>
                       Inr (s\<lparr> positions := pos, velocities := vel, densities := ds,
                               pressures := ps, forces := map (\<lambda>f. (0.0, 0.0, 0.0)) fs \<rparr>))))"

text \<open>
  The states a caller can reach: a constructed object, whose sample lies in the range
  \<open>np.random.uniform(-1.0, 1.0)\<close> draws from, and every state a successful
  \<open>update\<close> leaves.
\<close>

definition in_seed :: "vec3 \<Rightarrow> bool" where
  "in_seed p = (\<forall>k \<in> {0, 1, 2}. - 1 \<le> vget p k \<and> vget p k \<le> 1)"

inductive reachable :: "sph_system \<Rightarrow> bool" where
  constructed:
    "init n h rd visc k g uniform = Inr s \<Longrightarrow> (\<forall>i < nat n. in_seed (uniform i)) \<Longrightarrow> reachable s"
| stepped:
    "reachable s \<Longrightarrow> update s dt = Inr s' \<Longrightarrow> reachable s'"

subsection \<open>The invariant of the reachable states\<close>

text \<open>
  A position lies in the box when every axis does. A state is consistent when its arrays
  have \<open>particle_count\<close> rows, the box is not empty, every particle is in the box
  and \<open>forces\<close> is zero: what the constructor sets up and \<open>update\<close> keeps.
\<close>

definition in_bounds :: "vec3 \<Rightarrow> vec3 \<Rightarrow> vec3 \<Rightarrow> bool" where
  "in_bounds lo hi p = (\<forall>k < 3. vget lo k \<le> vget p k \<and> vget p k \<le> vget hi k)"

definition consistent :: "sph_system \<Rightarrow> bool" where
  "consistent s =
     (0 \<le> particle_count s \<and>
      length (positions s) = nat (particle_count s) \<and>
      length (velocities s) = nat (particle_count s) \<and>
      length (densities s) = nat (particle_count s) \<and>
      length (pressures s) = nat (particle_count s) \<and>
      length (forces s) = nat (particle_count s) \<and>
      (\<forall>k < 3. vget (boundary_min s) k \<le> vget (boundary_max s) k) \<and>
      (\<forall>p \<in> set (positions s). in_bounds (boundary_min s) (boundary_max s) p) \<and>
      (\<forall>f \<in> set (forces s). f = (0, 0, 0)))"

subsection \<open>Example states\<close>

text \<open>
  \<open>lone_particle\<close> is the object the constructor returns for one particle with the
  default arguments when the sample is the origin; \<open>far_pair\<close> the one for two
  particles, the second sampled at \<open>(0.5, 0, 0)\<close>, five smoothing radii away.
\<close>

definition zero_sample :: "nat \<Rightarrow> vec3" where
  "zero_sample i = (0, 0, 0)"

definition lone_particle :: sph_system where
  "lone_particle = \<lparr>
     particle_count = 1, smoothing_radius = 1 / 10, rest_density = 1000, viscosity = 1 / 10,
     pressure_stiffness = 3, gravity = [0, - 9.81, 0],
     positions = [(0, 0, 0)], velocities = [(0, 0, 0)], densities = [1000], pressures = [0],
     forces = [(0, 0, 0)],
     boundary_min = (- 3, - 1, - 3), boundary_max = (3, 5, 3), boundary_damping = - 0.5,
     kernel_constant = 8 / (pi * (1 / 10) ^ 4), pressure_constant = 3000 \<rparr>"

definition pair_sample :: "nat \<Rightarrow> vec3" where
  "pair_sample i = (if i = 0 then (0, 0, 0) else (1 / 2, 0, 0))"

definition far_pair :: sph_system where
  "far_pair = \<lparr>
     particle_count = 2, smoothing_radius = 1 / 10, rest_density = 1000, viscosity = 1 / 10,
     pressure_stiffness = 3, gravity = [0, - 9.81, 0],
     positions = [(0, 0, 0), (1 / 2, 0, 0)], velocities = [(0, 0, 0), (0, 0, 0)],
     densities = [1000, 1000], pressures = [0, 0],
     forces = [(0, 0, 0), (0, 0, 0)],
     boundary_min = (- 3, - 1, - 3), boundary_max = (3, 5, 3), boundary_damping = - 0.5,
     kernel_constant = 8 / (pi * (1 / 10) ^ 4), pressure_constant = 3000 \<rparr>"

section \<open>Properties\<close>

subsection \<open>Vectors\<close>

lemma vget_vset: "j < 3 \<Longrightarrow> k < 3 \<Longrightarrow> vget (vset p j a) k = (if k = j then a else vget p k)"
proof -
  assume "j < 3" "k < 3"
  then have "(j = 0 \<or> j = 1 \<or> j = 2) \<and> (k = 0 \<or> k = 1 \<or> k = 2)" by auto
  moreover obtain x y z where "p = (x, y, z)" by (metis surj_pair)
  ultimately show ?thesis by auto
qed

lemma vget_vadd: "vget (vadd a b) k = vget a k + vget b k"
  by (cases a; cases b) auto

lemma vget_vscale: "vget (vscale a c) k = vget a k * c"
  by (cases a) auto

lemma vec3_eqI: "(\<And>k. k < 3 \<Longrightarrow> vget a k = vget b k) \<Longrightarrow> a = b"
proof -
  assume h: "\<And>k. k < 3 \<Longrightarrow> vget a k = vget b k"
  obtain x y z where a: "a = (x, y, z)" by (metis surj_pair)
  obtain x' y' z' where b: "b = (x', y', z')" by (metis surj_pair)
  from h[of 0] h[of 1] h[of 2] show ?thesis unfolding a b by simp
qed

lemma upt_2: "[0..<2] = [0, 1]"
  by (simp add: upt_rec)

lemma upt_3: "[0..<3] = [0, 1, 2]"
  by (simp add: upt_rec)

subsection \<open>The kernel\<close>

lemma kernel_inner_pos:
  fixes q :: real
  assumes "0 \<le> q" "q \<le> 1/2"
  shows "0 < 1 - 6 * q * q + 6 * q * q * q"
proof -
  have a: "q * q \<le> q * (1/2)" using assms by (intro mult_left_mono) auto
  have b: "q * (1 - q) \<le> 1/4"
  proof -
    have "0 \<le> (q - 1/2)^2" by simp
    then show ?thesis by (simp add: power2_eq_square algebra_simps)
  qed
  have c: "q * q * (1 - q) \<le> q * (1/2) * (1 - q)"
    using a assms by (intro mult_right_mono) auto
  have "6 * (q * q * (1 - q)) \<le> 3/4" using b c by simp
  then show ?thesis by (simp add: algebra_simps)
qed

lemma kernel_value_pos:
  assumes "0 < h" "0 \<le> q" "q < 1"
  shows "0 < kernel_value h q"
proof (cases "q \<le> 1/2")
  case True
  have "0 < 8 / (pi * h ^ 4)" using assms by simp
  moreover have "0 < 1 - 6 * q * q + 6 * q * q * q" using kernel_inner_pos[OF assms(2) True] .
  ultimately show ?thesis using True by (simp add: kernel_value_def)
next
  case False
  have "0 < 8 / (pi * h ^ 4)" using assms by simp
  moreover have "0 < (1 - q) ^ 3" using assms by simp
  ultimately show ?thesis using False by (simp add: kernel_value_def)
qed

lemma kernel_term_outside:
  assumes "0 < h" "h \<le> r"
  shows "kernel_term (r * r) h = 0"
proof -
  have "h * h \<le> r * r" using assms by (intro mult_mono) auto
  then show ?thesis by (simp add: kernel_term_def)
qed

lemma kernel_term_inside:
  assumes "0 < h" "0 \<le> r" "r < h"
  shows "0 < kernel_term (r * r) h"
proof -
  have lt: "r * r < h * h" using assms by (intro mult_strict_mono') auto
  have sq: "sqrt (r * r) = r" using assms by simp
  have q: "0 \<le> r / h" "r / h < 1" using assms by auto
  show ?thesis using lt sq q kernel_value_pos[OF assms(1) q]
    by (simp add: kernel_term_def Let_def)
qed

lemma kernel_term_zero: "\<not> d < h * h \<Longrightarrow> kernel_term d h = 0"
  by (simp add: kernel_term_def)

lemma kernel_value_isCont: "isCont (kernel_value h) (1/2)"
proof -
  let ?C = "8 / (pi * h ^ 4)"
  have eq: "kernel_value h = (\<lambda>q. if q \<le> 1/2 then ?C * (1 - 6 * q * q + 6 * q * q * q)
      else ?C * 2 * (1 - q) ^ 3)"
    by (rule ext) (simp add: kernel_value_def)
  have l: "continuous (at_left (1/2)) (\<lambda>q. ?C * (1 - 6 * q * q + 6 * q * q * q))"
    by (intro continuous_intros)
  have lim: "((\<lambda>q. ?C * 2 * (1 - q) ^ 3) \<longlongrightarrow> ?C * 2 * (1 - 1/2) ^ 3) (at_right (1/2))"
    by (intro tendsto_intros)
  have v: "?C * (1 - 6 * (1/2) * (1/2) + 6 * (1/2) * (1/2) * (1/2)) = ?C * 2 * (1 - 1/2) ^ 3"
    by (simp add: power3_eq_cube)
  have r: "((\<lambda>q. ?C * 2 * (1 - q) ^ 3) \<longlongrightarrow>
      ?C * (1 - 6 * (1/2) * (1/2) + 6 * (1/2) * (1/2) * (1/2))) (at_right (1/2))"
    unfolding v by (rule lim)
  show ?thesis unfolding eq by (rule isCont_If_ge[OF l r])
qed

subsection \<open>The loops of the density and force passes\<close>

lemma density_sum_isolated:
  "(\<forall>j \<in> set js. j \<noteq> i \<longrightarrow> \<not> dist_sq P i j < h * h) \<Longrightarrow>
   foldl (density_step P h i) a js = a"
  by (induction js arbitrary: a) (auto simp: density_step_def kernel_term_zero)

lemma density_pressure_at_Inr:
  "density_pressure_at P h rd pc n i = Inr (d, p) \<Longrightarrow>
   d = max (density_sum P h n i) (rd * 0.1) \<and> rd \<noteq> 0"
  by (auto simp: density_pressure_at_def Let_def split: if_splits)

lemma densities_loop_result:
  "densities_loop P h rd pc n is (ds, ps) = Inr (ds', ps') \<Longrightarrow>
   length ds' = length ds \<and> length ps' = length ps \<and>
   (\<forall>i < length ds. ds' ! i =
      (if i \<in> set is then max (density_sum P h n i) (rd * 0.1) else ds ! i))"
proof (induction "is" arbitrary: ds ps)
  case Nil
  then show ?case by simp
next
  case (Cons a "is")
  from Cons.prems obtain d p where
    at: "density_pressure_at P h rd pc n a = Inr (d, p)" and
    rest: "densities_loop P h rd pc n is (ds[a := d], ps[a := p]) = Inr (ds', ps')"
    by (auto split: sum.splits)
  from density_pressure_at_Inr[OF at] have d: "d = max (density_sum P h n a) (rd * 0.1)" by simp
  from Cons.IH[OF rest] have
    len: "length ds' = length ds" "length ps' = length ps" and
    val: "\<forall>i < length ds. ds' ! i =
      (if i \<in> set is then max (density_sum P h n i) (rd * 0.1) else ds[a := d] ! i)"
    by auto
  show ?case using len val d by (auto simp: nth_list_update)
qed

lemma densities_loop_ok:
  "rd \<noteq> 0 \<Longrightarrow> \<exists>r. densities_loop P h rd pc n is dp = Inr r"
proof (induction "is" arbitrary: dp)
  case Nil
  then show ?case by simp
next
  case (Cons a "is")
  obtain ds ps where dp: "dp = (ds, ps)" by (cases dp)
  show ?case using Cons dp by (simp add: density_pressure_at_def Let_def)
qed

lemma force_loop_ok:
  "(\<forall>j \<in> set js. D ! j \<noteq> 0) \<Longrightarrow> \<exists>r. force_loop P V D Pr h visc i js acc = Inr r"
proof (induction js arbitrary: acc)
  case Nil
  show ?case by (simp del: split_paired_Ex)
next
  case (Cons j js)
  obtain pf vf where acc: "acc = (pf, vf)" by (metis surj_pair)
  have "\<exists>acc'. force_step P V D Pr h visc i acc j = Inr acc'"
    using Cons.prems unfolding acc by (simp add: force_step_def Let_def del: split_paired_Ex)
  then show ?case using Cons by auto
qed

lemma forces_loop_length:
  "forces_loop P V D Pr h visc g n is F = Inr F' \<Longrightarrow> length F' = length F"
proof (induction "is" arbitrary: F)
  case Nil
  then show ?case by simp
next
  case (Cons a "is")
  then show ?case by (auto split: sum.splits)
qed

lemma forces_loop_ok:
  "(\<forall>j < n. D ! j \<noteq> 0) \<Longrightarrow> \<exists>r. forces_loop P V D Pr h visc g n is F = Inr r"
proof (induction "is" arbitrary: F)
  case Nil
  then show ?case by simp
next
  case (Cons a "is")
  have "\<exists>r. force_loop P V D Pr h visc a [0..<n] ((0, 0, 0), (0, 0, 0)) = Inr r"
    using Cons.prems by (intro force_loop_ok) auto
  then obtain pf vf where "force_loop P V D Pr h visc a [0..<n] ((0, 0, 0), (0, 0, 0)) = Inr (pf, vf)"
    by auto
  then show ?case using Cons by (simp add: force_at_def Let_def)
qed

lemma forces_loop_result:
  "forces_loop P V D Pr h visc g n is F = Inr F' \<Longrightarrow> distinct is \<Longrightarrow> i < length F \<Longrightarrow>
   (if i \<in> set is then force_at P V D Pr F h visc g n i = Inr (F' ! i) else F' ! i = F ! i)"
proof (induction "is" arbitrary: F)
  case Nil
  then show ?case by simp
next
  case (Cons a "is")
  from Cons.prems(1) obtain f where
    at: "force_at P V D Pr F h visc g n a = Inr f" and
    rest: "forces_loop P V D Pr h visc g n is (F[a := f]) = Inr F'"
    by (auto split: sum.splits)
  have dist: "distinct is" "a \<notin> set is" using Cons.prems(2) by auto
  have i: "i < length (F[a := f])" using Cons.prems(3) by simp
  note IH = Cons.IH[OF rest dist(1) i]
  show ?case
  proof (cases "i = a")
    case True
    with IH dist Cons.prems(3) at show ?thesis by simp
  next
    case False
    have "force_at P V D Pr (F[a := f]) h visc g n i = force_at P V D Pr F h visc g n i"
      using False by (simp add: force_at_def)
    with IH False show ?thesis by (auto split: if_splits)
  qed
qed

subsection \<open>The integration loop\<close>

lemma boundary_axis_get:
  assumes "boundary_axis bmin bmax d (p, v) j = (p', v')" and "j < 3" and "k < 3"
  shows "vget p' k =
           (if k = j then
              (if vget p j < vget bmin j then vget bmin j
               else if vget p j > vget bmax j then vget bmax j else vget p j)
            else vget p k)"
    and "vget v' k =
           (if k = j \<and> (vget p j < vget bmin j \<or> vget p j > vget bmax j) then vget v j * d
            else vget v k)"
  using assms by (auto simp: boundary_axis_def vget_vset split: if_splits)

lemma boundary_fold_axis:
  assumes "foldl (boundary_axis bmin bmax d) (p1, v1) [0..<3] = (p', v')" and "k < 3"
  shows "vget p' k =
           (if vget p1 k < vget bmin k then vget bmin k
            else if vget p1 k > vget bmax k then vget bmax k else vget p1 k)"
    and "vget v' k =
           (if vget p1 k < vget bmin k \<or> vget p1 k > vget bmax k then vget v1 k * d
            else vget v1 k)"
proof -
  obtain p2 v2 where s0: "boundary_axis bmin bmax d (p1, v1) 0 = (p2, v2)" by (metis surj_pair)
  obtain p3 v3 where s1: "boundary_axis bmin bmax d (p2, v2) 1 = (p3, v3)" by (metis surj_pair)
  have s2: "boundary_axis bmin bmax d (p3, v3) 2 = (p', v')"
    using assms(1) s0 s1 by (simp add: upt_3)
  have k: "k = 0 \<or> k = 1 \<or> k = 2" using assms(2) by auto
  note g0 = boundary_axis_get[OF s0, of k] and g1 = boundary_axis_get[OF s1, of k]
    and g2 = boundary_axis_get[OF s2, of k]
  show "vget p' k =
           (if vget p1 k < vget bmin k then vget bmin k
            else if vget p1 k > vget bmax k then vget bmax k else vget p1 k)"
    using k g0(1) g1(1) g2(1) by auto
  show "vget v' k =
           (if vget p1 k < vget bmin k \<or> vget p1 k > vget bmax k then vget v1 k * d
            else vget v1 k)"
    using k g0 g1 g2 by auto
qed

lemma integrate_loop_result:
  assumes "foldl (integrate_step F dt bmin bmax d) (P, V) is = (P', V')" and "distinct is"
  shows "length P' = length P \<and> length V' = length V \<and>
    (\<forall>i. i < length P \<and> i < length V \<longrightarrow>
       (P' ! i, V' ! i) =
         (if i \<in> set is then integrate_particle (P ! i) (V ! i) (F ! i) dt bmin bmax d
          else (P ! i, V ! i)))"
  using assms
proof (induction "is" arbitrary: P V)
  case Nil
  then show ?case by simp
next
  case (Cons a "is")
  obtain p v where pv: "integrate_particle (P ! a) (V ! a) (F ! a) dt bmin bmax d = (p, v)"
    by (metis surj_pair)
  have st: "integrate_step F dt bmin bmax d (P, V) a = (P[a := p], V[a := v])"
    by (simp add: integrate_step_def pv)
  have rest: "foldl (integrate_step F dt bmin bmax d) (P[a := p], V[a := v]) is = (P', V')"
    using Cons.prems(1) st by simp
  have dist: "distinct is" "a \<notin> set is" using Cons.prems(2) by auto
  from Cons.IH[OF rest dist(1)] have
    len: "length P' = length P" "length V' = length V" and
    val: "\<forall>i. i < length P \<and> i < length V \<longrightarrow>
       (P' ! i, V' ! i) =
         (if i \<in> set is
          then integrate_particle (P[a := p] ! i) (V[a := v] ! i) (F ! i) dt bmin bmax d
          else (P[a := p] ! i, V[a := v] ! i))"
    by auto
  show ?case
  proof (intro conjI allI impI)
    fix i assume i: "i < length P \<and> i < length V"
    show "(P' ! i, V' ! i) =
         (if i \<in> set (a # is) then integrate_particle (P ! i) (V ! i) (F ! i) dt bmin bmax d
          else (P ! i, V ! i))"
    proof (cases "i = a")
      case True
      then show ?thesis using val i dist pv by simp
    next
      case False
      then show ?thesis using val i by simp
    qed
  qed (use len in auto)
qed

lemma integrate_motion_result:
  assumes "integrate_motion P V F dt bmin bmax d n = (P', V')"
  shows "length P' = length P \<and> length V' = length V \<and>
    (\<forall>i. i < length P \<and> i < length V \<longrightarrow>
       (P' ! i, V' ! i) =
         (if i < n then integrate_particle (P ! i) (V ! i) (F ! i) dt bmin bmax d
          else (P ! i, V ! i)))"
  using integrate_loop_result[of F dt bmin bmax d P V "[0..<n]" P' V'] assms
  by (simp add: integrate_motion_def)

lemma integrate_particle_in_bounds:
  assumes "\<forall>k < 3. vget bmin k \<le> vget bmax k"
    and "integrate_particle p v f dt bmin bmax d = (p', v')"
  shows "in_bounds bmin bmax p'"
proof -
  from assms(2) have f: "foldl (boundary_axis bmin bmax d)
      (vadd p (vscale (vadd v (vscale f dt)) dt), vadd v (vscale f dt)) [0..<3] = (p', v')"
    by (simp add: integrate_particle_def Let_def)
  show ?thesis unfolding in_bounds_def
  proof (intro allI impI)
    fix k :: nat assume k: "k < 3"
    from boundary_fold_axis(1)[OF f k] assms(1) k
    show "vget bmin k \<le> vget p' k \<and> vget p' k \<le> vget bmax k"
      by (auto split: if_splits)
  qed
qed

lemma integrate_particle_zero_dt:
  assumes "in_bounds bmin bmax p"
  shows "integrate_particle p v f 0 bmin bmax d = (p, v)"
proof -
  obtain p' v' where r: "integrate_particle p v f 0 bmin bmax d = (p', v')" by (metis surj_pair)
  then have f: "foldl (boundary_axis bmin bmax d)
      (vadd p (vscale (vadd v (vscale f 0)) 0), vadd v (vscale f 0)) [0..<3] = (p', v')"
    by (simp add: integrate_particle_def Let_def)
  have "p' = p"
  proof (rule vec3_eqI)
    fix k :: nat assume k: "k < 3"
    from boundary_fold_axis(1)[OF f k] assms k show "vget p' k = vget p k"
      by (auto simp: in_bounds_def vget_vadd vget_vscale)
  qed
  moreover have "v' = v"
  proof (rule vec3_eqI)
    fix k :: nat assume k: "k < 3"
    from boundary_fold_axis(2)[OF f k] assms k show "vget v' k = vget v k"
      by (auto simp: in_bounds_def vget_vadd vget_vscale)
  qed
  ultimately show ?thesis using r by simp
qed

subsection \<open>The constructor and the step\<close>

lemma pow4_in_range:
  assumes "1 / 10 ^ 60 \<le> \<bar>h\<bar>" and "\<bar>h\<bar> \<le> 10 ^ 60"
  shows "\<not> pow4_overflows h" and "\<not> pow4_is_zero h"
proof -
  have e: "\<bar>h\<bar> ^ 4 = h ^ 4" by (rule power_even_abs) simp
  have "\<bar>h\<bar> ^ 4 \<le> (10 ^ 60) ^ 4" by (rule power_mono[OF assms(2)]) simp
  then have "h ^ 4 \<le> (10 ^ 60) ^ 4" unfolding e .
  also have "((10 :: real) ^ 60) ^ 4 < 2 ^ 1024 - 2 ^ 970" by simp
  finally have up: "h ^ 4 < 2 ^ 1024 - 2 ^ 970" .
  have p: "(0 :: real) \<le> 1 / 10 ^ 60" by simp
  have "(1 :: real) / 2 ^ 1075 < (1 / 10 ^ 60) ^ 4" by (simp add: power_divide)
  also have "(1 / 10 ^ 60) ^ 4 \<le> \<bar>h\<bar> ^ 4" by (rule power_mono[OF assms(1) p])
  finally have lo: "1 / 2 ^ 1075 < h ^ 4" unfolding e .
  show "\<not> pow4_overflows h" unfolding pow4_overflows_def not_le by (rule up)
  show "\<not> pow4_is_zero h" unfolding pow4_is_zero_def not_le by (rule lo)
qed


lemma pow4_tenth:
  "\<not> pow4_overflows (1 / 10)" "\<not> pow4_is_zero (1 / 10)"
  "\<not> pow4_overflows (- (1 / 10))" "\<not> pow4_is_zero (- (1 / 10))"
  by (rule pow4_in_range; simp)+


lemma update_Inr:
  assumes "update s dt = Inr s'"
  obtains ds ps fs pos vel where
    "calculate_densities_and_pressures (positions s) (densities s) (pressures s)
       (smoothing_radius s) (rest_density s) (pressure_constant s) (nat (particle_count s))
     = Inr (ds, ps)"
    "calculate_forces (positions s) (velocities s) ds ps (forces s)
       (smoothing_radius s) (viscosity s) (kernel_constant s) (gravity s) (nat (particle_count s))
     = Inr fs"
    "integrate_motion (positions s) (velocities s) fs dt
       (boundary_min s) (boundary_max s) (boundary_damping s) (nat (particle_count s))
     = (pos, vel)"
    "s' = s\<lparr> positions := pos, velocities := vel, densities := ds,
              pressures := ps, forces := map (\<lambda>f. (0, 0, 0)) fs \<rparr>"
  using assms unfolding update_def Let_def
  by (auto split: sum.splits prod.splits)

lemma in_seed_bounds: "in_seed p \<Longrightarrow> in_bounds (- 3, - 1, - 3) (3, 5, 3) p"
proof -
  assume a: "in_seed p"
  obtain x y z where p: "p = (x, y, z)" by (metis surj_pair)
  have "\<And>k::nat. k < 3 \<Longrightarrow> k = 0 \<or> k = 1 \<or> k = 2" by auto
  then show ?thesis using a unfolding p in_seed_def in_bounds_def by fastforce
qed

lemma init_consistent:
  assumes "init n h rd visc k g uniform = Inr s" and "\<forall>i < nat n. in_seed (uniform i)"
  shows "consistent s"
proof -
  from assms(1) obtain gv where
    s: "s = \<lparr> particle_count = n, smoothing_radius = h, rest_density = rd, viscosity = visc,
            pressure_stiffness = k, gravity = gv,
            positions = map uniform [0..<nat n],
            velocities = replicate (nat n) (0, 0, 0),
            densities = replicate (nat n) rd,
            pressures = replicate (nat n) 0,
            forces = replicate (nat n) (0, 0, 0),
            boundary_min = (- 3, - 1, - 3), boundary_max = (3, 5, 3),
            boundary_damping = - 0.5,
            kernel_constant = 8 / (pi * h ^ 4),
            pressure_constant = k * rd \<rparr>" and n: "0 \<le> n"
    unfolding init_def by (auto split: sum.splits if_splits)
  have b: "\<forall>k::nat < 3. vget (- 3, - 1, - 3) k \<le> vget (3 :: real, 5 :: real, 3 :: real) k"
    by auto
  show ?thesis unfolding consistent_def s using n assms(2) b
    by (auto simp: in_seed_bounds)
qed

lemma update_consistent:
  assumes "consistent s" and "update s dt = Inr s'"
  shows "consistent s'"
proof -
  let ?n = "nat (particle_count s)"
  from assms(2) obtain ds ps fs pos vel where
    dp: "calculate_densities_and_pressures (positions s) (densities s) (pressures s)
       (smoothing_radius s) (rest_density s) (pressure_constant s) ?n = Inr (ds, ps)" and
    fo: "calculate_forces (positions s) (velocities s) ds ps (forces s)
       (smoothing_radius s) (viscosity s) (kernel_constant s) (gravity s) ?n = Inr fs" and
    im: "integrate_motion (positions s) (velocities s) fs dt
       (boundary_min s) (boundary_max s) (boundary_damping s) ?n = (pos, vel)" and
    s': "s' = s\<lparr> positions := pos, velocities := vel, densities := ds,
              pressures := ps, forces := map (\<lambda>f. (0, 0, 0)) fs \<rparr>"
    by (rule update_Inr)
  from assms(1) have c:
    "0 \<le> particle_count s" "length (positions s) = ?n" "length (velocities s) = ?n"
    "length (densities s) = ?n" "length (pressures s) = ?n" "length (forces s) = ?n"
    "\<forall>k < 3. vget (boundary_min s) k \<le> vget (boundary_max s) k"
    by (simp_all add: consistent_def)
  from densities_loop_result[OF dp[unfolded calculate_densities_and_pressures_def]]
  have lds: "length ds = ?n" "length ps = ?n" using c by simp_all
  from forces_loop_length[OF fo[unfolded calculate_forces_def]]
  have lfs: "length fs = ?n" using c by simp
  note ir = integrate_motion_result[OF im]
  have lpv: "length pos = ?n" "length vel = ?n" using ir c by simp_all
  have inb: "\<forall>p \<in> set pos. in_bounds (boundary_min s) (boundary_max s) p"
  proof
    fix p assume "p \<in> set pos"
    then obtain i where i: "i < ?n" "p = pos ! i" using lpv by (auto simp: in_set_conv_nth)
    with ir c have "(pos ! i, vel ! i) = integrate_particle (positions s ! i) (velocities s ! i)
      (fs ! i) dt (boundary_min s) (boundary_max s) (boundary_damping s)" by simp
    from integrate_particle_in_bounds[OF c(7) this[symmetric]] i
    show "in_bounds (boundary_min s) (boundary_max s) p" by simp
  qed
  show ?thesis unfolding consistent_def s' using c lds lfs lpv inb by simp
qed

lemma reachable_consistent: "reachable s \<Longrightarrow> consistent s"
  by (induction rule: reachable.induct) (auto intro: init_consistent update_consistent)

lemma update_ok:
  assumes "consistent s" and "0 < rest_density s"
  shows "\<exists>s'. update s dt = Inr s'"
proof -
  let ?n = "nat (particle_count s)"
  from assms(2) have "rest_density s \<noteq> 0" by simp
  from densities_loop_ok[OF this] obtain ds ps where
    dp: "densities_loop (positions s) (smoothing_radius s) (rest_density s) (pressure_constant s)
           ?n [0..<?n] (densities s, pressures s) = Inr (ds, ps)"
    by (metis surj_pair)
  have len: "length (densities s) = ?n" using assms(1) by (simp add: consistent_def)
  have pos: "\<forall>j < ?n. ds ! j \<noteq> 0"
  proof (intro allI impI)
    fix j assume j: "j < ?n"
    with densities_loop_result[OF dp] len
    have "ds ! j = max (density_sum (positions s) (smoothing_radius s) ?n j) (rest_density s * 0.1)"
      by simp
    with assms(2) show "ds ! j \<noteq> 0" by (simp add: max_def)
  qed
  from forces_loop_ok[OF pos] obtain fs where
    fo: "forces_loop (positions s) (velocities s) ds ps (smoothing_radius s) (viscosity s)
           (gravity s) ?n [0..<?n] (forces s) = Inr fs"
    by blast
  show ?thesis using dp fo
    by (simp add: update_def calculate_densities_and_pressures_def calculate_forces_def
        Let_def split: prod.splits)
qed

subsection \<open>The example states, evaluated\<close>

lemma init_lone: "init 1 (1 / 10) 1000 (1 / 10) 3 GNone zero_sample = Inr lone_particle"
  by (simp add: init_def gravity_or_default_def lone_particle_def zero_sample_def pow4_tenth)

lemma reachable_lone: "reachable lone_particle"
  by (rule reachable.constructed[OF init_lone]) (simp add: zero_sample_def in_seed_def)

lemma update_lone: "update lone_particle (1 / 100) =
   Inr (lone_particle\<lparr> positions := [(0, - 0.000981, 0)], velocities := [(0, - 0.0981, 0)],
          densities := [100], pressures := [- 2700] \<rparr>)"
  by (simp add: update_def lone_particle_def calculate_densities_and_pressures_def
      density_pressure_at_def density_sum_def density_step_def calculate_forces_def
      force_at_def force_step_def integrate_motion_def integrate_step_def
      integrate_particle_def boundary_axis_def upt_3 Let_def)

lemma update_lone_neg: "update lone_particle (- 1) =
   Inr (lone_particle\<lparr> positions := [(0, - 1, 0)], velocities := [(0, - 4.905, 0)],
          densities := [100], pressures := [- 2700] \<rparr>)"
  by (simp add: update_def lone_particle_def calculate_densities_and_pressures_def
      density_pressure_at_def density_sum_def density_step_def calculate_forces_def
      force_at_def force_step_def integrate_motion_def integrate_step_def
      integrate_particle_def boundary_axis_def upt_3 Let_def)

lemma init_far_pair: "init 2 (1 / 10) 1000 (1 / 10) 3 GNone pair_sample = Inr far_pair"
  by (simp add: init_def gravity_or_default_def far_pair_def pair_sample_def upt_2 numeral_2_eq_2
      pow4_tenth)

lemma reachable_far_pair: "reachable far_pair"
proof (rule reachable.constructed[OF init_far_pair])
  show "\<forall>i<nat 2. in_seed (pair_sample i)"
    by (simp add: pair_sample_def in_seed_def)
qed

lemma update_far_pair: "update far_pair (1 / 100) =
   Inr (far_pair\<lparr> positions := [(0, - 0.000981, 0), (1 / 2, - 0.000981, 0)],
          velocities := [(0, - 0.0981, 0), (0, - 0.0981, 0)],
          densities := [100, 100], pressures := [- 2700, - 2700] \<rparr>)"
  by (simp add: update_def far_pair_def calculate_densities_and_pressures_def
      density_pressure_at_def density_sum_def density_step_def dist_sq_def kernel_term_def
      calculate_forces_def force_at_def force_step_def integrate_motion_def integrate_step_def
      integrate_particle_def boundary_axis_def upt_3 upt_2 Let_def)

lemma force_step_example:
  "force_step [(0, 0, 0), (1, 0, 0)] [(0, 0, 0), (0, 1, 0)] [100, 100] [- 2700, - 2700] 2 1 0
      ((0, 0, 0), (0, 0, 0)) 1 = Inr ((81 / (16 * pi), 0, 0), (0, 0, 0))"
  by (simp add: force_step_def compute_kernel_gradient_def grad_mag_def Let_def)

lemma forces_example:
  "calculate_forces [(0, 0, 0)] [(0, 0, 0)] [100] [- 2700] [(0, 0, 0)] (1 / 10) (1 / 10)
      (8 / (pi * (1 / 10) ^ 4)) [1, 2, 3] 1 = Inr [(0, 2, 0)]"
  by (simp add: calculate_forces_def force_at_def force_step_def)

section \<open>The claims\<close>

text \<open>
  C1. After every successful \<open>update\<close> of a reachable state, every particle \<open>i\<close> has
  \<open>densities[i] \<ge> rest_density * 0.1\<close>. When \<open>rest_density\<close> is not negative and no
  other particle passes the test \<open>dist_sq < h * h\<close> against \<open>i\<close>, the density of
  \<open>i\<close> is \<open>rest_density * 0.1\<close> exactly.
\<close>

theorem density_floor:
  assumes "reachable s" and "update s dt = Inr s'" and "i < nat (particle_count s')"
  shows "rest_density s' * 0.1 \<le> densities s' ! i \<and>
     (0 \<le> rest_density s \<and>
      (\<forall>j < nat (particle_count s). j \<noteq> i \<longrightarrow>
          \<not> dist_sq (positions s) i j < smoothing_radius s * smoothing_radius s) \<longrightarrow>
      densities s' ! i = rest_density s' * 0.1)"
proof -
  let ?n = "nat (particle_count s)"
  from assms(2) obtain ds ps fs pos vel where
    dp: "calculate_densities_and_pressures (positions s) (densities s) (pressures s)
       (smoothing_radius s) (rest_density s) (pressure_constant s) ?n = Inr (ds, ps)" and
    fo: "calculate_forces (positions s) (velocities s) ds ps (forces s)
       (smoothing_radius s) (viscosity s) (kernel_constant s) (gravity s) ?n = Inr fs" and
    im: "integrate_motion (positions s) (velocities s) fs dt
       (boundary_min s) (boundary_max s) (boundary_damping s) ?n = (pos, vel)" and
    s': "s' = s\<lparr> positions := pos, velocities := vel, densities := ds,
              pressures := ps, forces := map (\<lambda>f. (0, 0, 0)) fs \<rparr>"
    by (rule update_Inr)
  have len: "length (densities s) = ?n"
    using reachable_consistent[OF assms(1)] by (simp add: consistent_def)
  have i: "i < ?n" using assms(3) s' by simp
  from densities_loop_result[OF dp[unfolded calculate_densities_and_pressures_def]] len i
  have v: "ds ! i = max (density_sum (positions s) (smoothing_radius s) ?n i)
                       (rest_density s * 0.1)"
    by simp
  have a: "rest_density s' * 0.1 \<le> densities s' ! i" using v s' by simp
  have b: "densities s' ! i = rest_density s' * 0.1"
    if "0 \<le> rest_density s" and
       "\<forall>j < ?n. j \<noteq> i \<longrightarrow>
          \<not> dist_sq (positions s) i j < smoothing_radius s * smoothing_radius s"
  proof -
    have "density_sum (positions s) (smoothing_radius s) ?n i = 0"
      unfolding density_sum_def using that(2) by (intro density_sum_isolated) simp
    with v that(1) s' show ?thesis by simp
  qed
  show ?thesis using a b by blast
qed

text \<open>
  C1, on the two particles of \<open>far_pair\<close>: neither is within the smoothing radius of
  the other, and one step leaves particle 0 with the density \<open>rest_density * 0.1\<close>.
\<close>

theorem density_floor_witness:
  "reachable far_pair \<and>
   (\<exists>s'. update far_pair (1 / 100) = Inr s' \<and>
         \<not> dist_sq (positions far_pair) 0 1 < smoothing_radius far_pair * smoothing_radius far_pair \<and>
         rest_density s' * 0.1 \<le> densities s' ! 0 \<and>
         densities s' ! 0 = rest_density s' * 0.1)"
proof -
  have far: "\<forall>j < nat (particle_count far_pair). j \<noteq> 0 \<longrightarrow>
      \<not> dist_sq (positions far_pair) 0 j < smoothing_radius far_pair * smoothing_radius far_pair"
  proof (intro allI impI)
    fix j :: nat assume "j < nat (particle_count far_pair)" "j \<noteq> 0"
    then have "j = 1" by (simp add: far_pair_def)
    then show "\<not> dist_sq (positions far_pair) 0 j
        < smoothing_radius far_pair * smoothing_radius far_pair"
      by (simp add: far_pair_def dist_sq_def)
  qed
  have rd: "0 \<le> rest_density far_pair" by (simp add: far_pair_def)
  from density_floor[OF reachable_far_pair update_far_pair, of 0] far rd
  show ?thesis using reachable_far_pair update_far_pair
    by (simp add: far_pair_def dist_sq_def)
qed

text \<open>
  C2 as stated fails: with \<open>dt = -1\<close> the call on \<open>lone_particle\<close> returns, and the
  particle has moved from the origin to \<open>(0, -1, 0)\<close> with a new velocity, density
  and pressure.
\<close>

theorem step_negative_dt_counterexample:
  "update lone_particle (- 1) =
     Inr (lone_particle\<lparr> positions := [(0, - 1, 0)], velocities := [(0, - 4.905, 0)],
            densities := [100], pressures := [- 2700] \<rparr>) \<and>
   positions lone_particle = [(0, 0, 0)] \<and> velocities lone_particle = [(0, 0, 0)]"
  using update_lone_neg by (simp add: lone_particle_def)

text \<open>
  C2 as amended. \<open>update\<close> does not look at \<open>dt\<close>: in a reachable state with a
  positive \<open>rest_density\<close> the call returns for every \<open>dt\<close>, negative ones
  included, and every particle has the position and velocity the integration pass
  computes with that \<open>dt\<close> from the forces of the force pass.
\<close>

theorem update_any_dt:
  assumes "reachable s" and "0 < rest_density s"
  shows "\<exists>s' ds ps fs.
     update s dt = Inr s' \<and>
     calculate_densities_and_pressures (positions s) (densities s) (pressures s)
       (smoothing_radius s) (rest_density s) (pressure_constant s) (nat (particle_count s))
       = Inr (ds, ps) \<and>
     calculate_forces (positions s) (velocities s) ds ps (forces s)
       (smoothing_radius s) (viscosity s) (kernel_constant s) (gravity s)
       (nat (particle_count s)) = Inr fs \<and>
     (\<forall>i < nat (particle_count s).
        (positions s' ! i, velocities s' ! i) =
          integrate_particle (positions s ! i) (velocities s ! i) (fs ! i) dt
            (boundary_min s) (boundary_max s) (boundary_damping s))"
proof -
  note c = reachable_consistent[OF assms(1)]
  let ?n = "nat (particle_count s)"
  from update_ok[OF c assms(2)] obtain s' where u: "update s dt = Inr s'" by blast
  from u obtain ds ps fs pos vel where
    dp: "calculate_densities_and_pressures (positions s) (densities s) (pressures s)
       (smoothing_radius s) (rest_density s) (pressure_constant s) ?n = Inr (ds, ps)" and
    fo: "calculate_forces (positions s) (velocities s) ds ps (forces s)
       (smoothing_radius s) (viscosity s) (kernel_constant s) (gravity s) ?n = Inr fs" and
    im: "integrate_motion (positions s) (velocities s) fs dt
       (boundary_min s) (boundary_max s) (boundary_damping s) ?n = (pos, vel)" and
    s': "s' = s\<lparr> positions := pos, velocities := vel, densities := ds,
              pressures := ps, forces := map (\<lambda>f. (0, 0, 0)) fs \<rparr>"
    by (rule update_Inr)
  have l: "length (positions s) = ?n" "length (velocities s) = ?n"
    using c by (simp_all add: consistent_def)
  from integrate_motion_result[OF im] l
  have "\<forall>i < ?n. (pos ! i, vel ! i) =
          integrate_particle (positions s ! i) (velocities s ! i) (fs ! i) dt
            (boundary_min s) (boundary_max s) (boundary_damping s)"
    by simp
  then show ?thesis using u dp fo s' by auto
qed

text \<open>
  C2 as amended, on \<open>lone_particle\<close> with \<open>dt = -1\<close>.
\<close>

theorem update_any_dt_witness:
  "reachable lone_particle \<and> 0 < rest_density lone_particle \<and>
   (\<exists>s'. update lone_particle (- 1) = Inr s' \<and> positions s' ! 0 = (0, - 1, 0))"
proof -
  have rd: "0 < rest_density lone_particle" by (simp add: lone_particle_def)
  from update_any_dt[OF reachable_lone rd, of "- 1"]
  obtain s' where "update lone_particle (- 1) = Inr s'" by blast
  with update_lone_neg reachable_lone rd show ?thesis by simp
qed




text \<open>
  C4. In a reachable state with a positive \<open>rest_density\<close>, \<open>update\<close> returns for every
  \<open>dt\<close>, and in the state it returns every particle lies between \<open>boundary_min\<close> and
  \<open>boundary_max\<close> on every axis.
\<close>

theorem boundary_containment:
  assumes "reachable s" and "0 < rest_density s"
  shows "\<exists>s'. update s dt = Inr s' \<and>
     (\<forall>i < nat (particle_count s'). \<forall>k < 3.
        vget (boundary_min s') k \<le> vget (positions s' ! i) k \<and>
        vget (positions s' ! i) k \<le> vget (boundary_max s') k)"
proof -
  note c = reachable_consistent[OF assms(1)]
  from update_ok[OF c assms(2)] obtain s' where u: "update s dt = Inr s'" by blast
  have c': "consistent s'" using update_consistent[OF c u] .
  have "vget (boundary_min s') k \<le> vget (positions s' ! i) k \<and>
        vget (positions s' ! i) k \<le> vget (boundary_max s') k"
    if "i < nat (particle_count s')" and "k < 3" for i k
  proof -
    have "positions s' ! i \<in> set (positions s')" using c' that(1) by (simp add: consistent_def)
    with c' have "in_bounds (boundary_min s') (boundary_max s') (positions s' ! i)"
      by (simp add: consistent_def)
    then show ?thesis using that(2) by (simp add: in_bounds_def)
  qed
  with u show ?thesis by blast
qed

text \<open>
  C4, on \<open>lone_particle\<close> stepped with \<open>dt = -1\<close>: the particle would leave the box
  through the floor and is put on it.
\<close>

theorem boundary_containment_witness:
  "reachable lone_particle \<and> 0 < rest_density lone_particle \<and>
   (\<exists>s'. update lone_particle (- 1) = Inr s' \<and> positions s' = [(0, - 1, 0)] \<and>
         vget (boundary_min s') 1 \<le> vget (positions s' ! 0) 1 \<and>
         vget (positions s' ! 0) 1 \<le> vget (boundary_max s') 1)"
proof -
  have rd: "0 < rest_density lone_particle" by (simp add: lone_particle_def)
  from boundary_containment[OF reachable_lone rd, of "- 1"] obtain s' where
    u: "update lone_particle (- 1) = Inr s'" and
    b: "\<forall>i < nat (particle_count s'). \<forall>k < 3.
        vget (boundary_min s') k \<le> vget (positions s' ! i) k \<and>
        vget (positions s' ! i) k \<le> vget (boundary_max s') k"
    by blast
  from u update_lone_neg have s': "s' = lone_particle\<lparr> positions := [(0, - 1, 0)],
      velocities := [(0, - 4.905, 0)], densities := [100], pressures := [- 2700] \<rparr>"
    by simp
  have "(0 :: nat) < nat (particle_count s')" by (simp add: s' lone_particle_def)
  with b have "vget (boundary_min s') 1 \<le> vget (positions s' ! 0) 1 \<and>
        vget (positions s' ! 0) 1 \<le> vget (boundary_max s') 1"
    by simp
  with reachable_lone rd u s' show ?thesis by simp
qed

text \<open>
  C5 does not hold of the code. Particle 0 is at the origin, and its neighbour,
  particle 1, at distance 1, with \<open>h = 2\<close>, viscosity 1 and density 100, so that
  \<open>grad_mag\<close> is \<open>-3 / (16 pi)\<close>. Line 159 multiplies the velocity difference by the
  gradient vector, component by component. For a neighbour at \<open>(1, 0, 0)\<close> that moves
  across the joining axis, with velocity \<open>(0, 1, 0)\<close>, the loop body adds
  \<open>(0, 0, 0)\<close> to \<open>viscosity_force\<close>, while the velocity difference scaled by
  \<open>viscosity * (grad_mag / density)\<close> is \<open>(0, -3 / (1600 pi), 0)\<close>. For a neighbour
  that moves along the axis, with velocity \<open>(1, 0, 0)\<close>, the body adds
  \<open>3 / (1600 pi)\<close> on that axis when the neighbour is at \<open>(1, 0, 0)\<close> and
  \<open>-3 / (1600 pi)\<close> when it is at \<open>(-1, 0, 0)\<close>: the sign follows the side the
  neighbour is on.
\<close>

theorem viscosity_force_at_pair:
  "force_step [(0, 0, 0), (1, 0, 0)] [(0, 0, 0), (0, 1, 0)] [100, 100] [- 2700, - 2700] 2 1 0
      ((0, 0, 0), (0, 0, 0)) 1 = Inr ((81 / (16 * pi), 0, 0), (0, 0, 0)) \<and>
   smul (1 * (grad_mag 2 (1 / 2) / 100)) (vsub (0, 1, 0) (0, 0, 0)) = (0, - 3 / (1600 * pi), 0) \<and>
   force_step [(0, 0, 0), (1, 0, 0)] [(0, 0, 0), (1, 0, 0)] [100, 100] [- 2700, - 2700] 2 1 0
      ((0, 0, 0), (0, 0, 0)) 1 = Inr ((81 / (16 * pi), 0, 0), (3 / (1600 * pi), 0, 0)) \<and>
   force_step [(0, 0, 0), (- 1, 0, 0)] [(0, 0, 0), (1, 0, 0)] [100, 100] [- 2700, - 2700] 2 1 0
      ((0, 0, 0), (0, 0, 0)) 1 = Inr ((- 81 / (16 * pi), 0, 0), (- 3 / (1600 * pi), 0, 0))"
  using force_step_example
  by (simp add: grad_mag_def force_step_def compute_kernel_gradient_def Let_def)

text \<open>
  C6 as stated fails: for one particle and \<open>gravity = [1, 2, 3]\<close> the force pass
  leaves \<open>forces[0] = (0, 2, 0)\<close>, not \<open>(1, 2, 3)\<close>.
\<close>

theorem gravity_full_vector_counterexample:
  "calculate_forces [(0, 0, 0)] [(0, 0, 0)] [100] [- 2700] [(0, 0, 0)] (1 / 10) (1 / 10)
      (8 / (pi * (1 / 10) ^ 4)) [1, 2, 3] 1 = Inr [(0, 2, 0)]"
  using forces_example .

text \<open>
  C6 as amended. In the force pass of a reachable state, where \<open>forces\<close> is zero on
  entry, the force of particle \<open>i\<close> is \<open>(0, gravity[1], 0)\<close> plus the two
  accumulators of the neighbour loop: only the second component of \<open>gravity\<close> is
  read.
\<close>

theorem gravity_y_only:
  assumes "reachable s"
    and "calculate_forces (positions s) (velocities s) D Pr (forces s) h visc kc (gravity s)
           (nat (particle_count s)) = Inr fs"
    and "i < nat (particle_count s)"
  shows "\<exists>pressure_force viscosity_force.
     force_loop (positions s) (velocities s) D Pr h visc i [0..<nat (particle_count s)]
       ((0, 0, 0), (0, 0, 0)) = Inr (pressure_force, viscosity_force) \<and>
     fs ! i = vadd (vadd (0, gravity s ! 1, 0) pressure_force) viscosity_force"
proof -
  let ?n = "nat (particle_count s)"
  note c = reachable_consistent[OF assms(1)]
  have l: "i < length (forces s)" using c assms(3) by (simp add: consistent_def)
  then have z: "forces s ! i = (0, 0, 0)" using c by (simp add: consistent_def)
  from forces_loop_result[OF assms(2)[unfolded calculate_forces_def] _ l] assms(3)
  have "force_at (positions s) (velocities s) D Pr (forces s) h visc (gravity s) ?n i
          = Inr (fs ! i)"
    by simp
  then show ?thesis unfolding force_at_def Let_def z
    by (auto split: sum.splits simp del: split_paired_Ex)
qed

text \<open>
  C6 as amended, on the object built for one particle with \<open>gravity = [1, 2, 3]\<close>.
\<close>

theorem gravity_y_only_witness:
  "reachable (lone_particle\<lparr>gravity := [1, 2, 3]\<rparr>) \<and>
   (\<exists>fs. calculate_forces [(0, 0, 0)] [(0, 0, 0)] [100] [- 2700] [(0, 0, 0)] (1 / 10) (1 / 10)
      (8 / (pi * (1 / 10) ^ 4)) [1, 2, 3] 1 = Inr fs \<and> fs ! 0 = (0, 2, 0))"
proof -
  let ?s = "lone_particle\<lparr>gravity := [1, 2, 3]\<rparr>"
  have i: "init 1 (1 / 10) 1000 (1 / 10) 3 (GList [1, 2, 3]) zero_sample = Inr ?s"
    by (simp add: init_def gravity_or_default_def lone_particle_def zero_sample_def pow4_tenth)
  have r: "reachable ?s"
    by (rule reachable.constructed[OF i]) (simp add: zero_sample_def in_seed_def)
  have f: "calculate_forces (positions ?s) (velocities ?s) [100] [- 2700] (forces ?s)
      (1 / 10) (1 / 10) (8 / (pi * (1 / 10) ^ 4)) (gravity ?s) (nat (particle_count ?s))
      = Inr [(0, 2, 0)]"
    using forces_example by (simp add: lone_particle_def)
  from gravity_y_only[OF r f, of 0] r forces_example show ?thesis
    by (simp add: lone_particle_def)
qed

text \<open>
  C7. For a smoothing radius \<open>h > 0\<close> and a distance \<open>r \<ge> 0\<close>, the term the density
  pass adds for a pair at distance \<open>r\<close> (squared distance \<open>r * r\<close>) is zero when
  \<open>r \<ge> h\<close> and positive when \<open>r < h\<close>. At \<open>q = 0.5\<close> the first branch of the
  spline has the value the formula of the second branch gives there, and the spline is
  continuous at that point.
\<close>

theorem kernel_support:
  assumes "0 < h" and "0 \<le> r"
  shows "(h \<le> r \<longrightarrow> kernel_term (r * r) h = 0) \<and>
         (r < h \<longrightarrow> 0 < kernel_term (r * r) h) \<and>
         kernel_value h 0.5 = 8.0 / (pi * h ^ 4) * 2 * (1 - 0.5) ^ 3 \<and>
         isCont (kernel_value h) 0.5"
proof -
  have "kernel_value h 0.5 = 8.0 / (pi * h ^ 4) * 2 * (1 - 0.5) ^ 3"
    by (simp add: kernel_value_def power3_eq_cube)
  moreover have "isCont (kernel_value h) 0.5" using kernel_value_isCont[of h] by simp
  ultimately show ?thesis
    using kernel_term_outside[OF assms(1)] kernel_term_inside[OF assms] by blast
qed

text \<open>
  C7, at \<open>h = 1\<close>: a pair at distance 0 adds a positive term, a pair at distance 2
  adds nothing.
\<close>

theorem kernel_support_witness:
  "(0 :: real) < 1 \<and> 0 < kernel_term (0 * 0) 1 \<and> kernel_term (2 * 2) 1 = 0"
  using kernel_support[of 1 0] kernel_support[of 1 2] by simp

text \<open>
  C8. \<open>integrate_motion\<close> gives every particle \<open>i < particle_count\<close>, on every axis
  \<open>k\<close>, the velocity \<open>v1 = velocity + force * dt\<close> and the position
  \<open>p1 = position + v1 * dt\<close>; when \<open>p1\<close> is below \<open>boundary_min[k]\<close> the position
  becomes \<open>boundary_min[k]\<close>, when it is above \<open>boundary_max[k]\<close> it becomes
  \<open>boundary_max[k]\<close>, and in both cases the velocity on that axis is
  \<open>v1 * boundary_damping\<close>.
\<close>

theorem integrate_motion_semantics:
  assumes "integrate_motion P V F dt bmin bmax d n = (P', V')"
    and "i < n" and "n \<le> length P" and "n \<le> length V" and "k < 3"
  shows "(let v1 = vget (V ! i) k + vget (F ! i) k * dt;
              p1 = vget (P ! i) k + v1 * dt
          in vget (P' ! i) k =
               (if p1 < vget bmin k then vget bmin k
                else if p1 > vget bmax k then vget bmax k else p1) \<and>
             vget (V' ! i) k =
               (if p1 < vget bmin k \<or> p1 > vget bmax k then v1 * d else v1))"
proof -
  from integrate_motion_result[OF assms(1)] assms(2,3,4)
  have "integrate_particle (P ! i) (V ! i) (F ! i) dt bmin bmax d = (P' ! i, V' ! i)" by simp
  then have f: "foldl (boundary_axis bmin bmax d)
      (vadd (P ! i) (vscale (vadd (V ! i) (vscale (F ! i) dt)) dt),
       vadd (V ! i) (vscale (F ! i) dt)) [0..<3] = (P' ! i, V' ! i)"
    by (simp add: integrate_particle_def Let_def)
  from boundary_fold_axis[OF f assms(5)] show ?thesis
    by (simp add: Let_def vget_vadd vget_vscale)
qed

text \<open>
  C8, for one particle at rest at the origin with the force \<open>(0, -9.81, 0)\<close> and
  \<open>dt = -1\<close>: it ends on the floor \<open>y = -1\<close> with its velocity damped.
\<close>

theorem integrate_motion_semantics_witness:
  "integrate_motion [(0, 0, 0)] [(0, 0, 0)] [(0, - 9.81, 0)] (- 1)
      (- 3, - 1, - 3) (3, 5, 3) (- 0.5) 1 = ([(0, - 1, 0)], [(0, - 4.905, 0)]) \<and>
   vget ([(0, - 1, 0)] ! 0) 1 = vget (- 3, - 1, - 3) 1 \<and>
   vget ([(0, - 4.905, 0)] ! 0) 1 = (0 + (- 9.81) * (- 1)) * (- 0.5)"
proof -
  have e: "integrate_motion [(0, 0, 0)] [(0, 0, 0)] [(0, - 9.81, 0)] (- 1)
      (- 3, - 1, - 3) (3, 5, 3) (- 0.5) 1 = ([(0, - 1, 0)], [(0, - 4.905, 0)])"
    by (simp add: integrate_motion_def integrate_step_def integrate_particle_def
        boundary_axis_def upt_3 Let_def)
  from integrate_motion_semantics[OF e, of 0 1] e show ?thesis
    by (simp add: Let_def)
qed

text \<open>
  C9. In a reachable state with a positive \<open>rest_density\<close>, \<open>update\<close> with \<open>dt = 0\<close>
  returns, and the state it returns has the positions and the velocities it was given.
\<close>

theorem zero_dt_idempotent:
  assumes "reachable s" and "0 < rest_density s"
  shows "\<exists>s'. update s 0 = Inr s' \<and>
            positions s' = positions s \<and> velocities s' = velocities s"
proof -
  note c = reachable_consistent[OF assms(1)]
  let ?n = "nat (particle_count s)"
  have l: "length (positions s) = ?n" "length (velocities s) = ?n"
    using c by (simp_all add: consistent_def)
  from update_ok[OF c assms(2)] obtain s' where u: "update s 0 = Inr s'" by blast
  from u obtain ds ps fs pos vel where
    dp: "calculate_densities_and_pressures (positions s) (densities s) (pressures s)
       (smoothing_radius s) (rest_density s) (pressure_constant s) ?n = Inr (ds, ps)" and
    fo: "calculate_forces (positions s) (velocities s) ds ps (forces s)
       (smoothing_radius s) (viscosity s) (kernel_constant s) (gravity s) ?n = Inr fs" and
    im: "integrate_motion (positions s) (velocities s) fs 0
       (boundary_min s) (boundary_max s) (boundary_damping s) ?n = (pos, vel)" and
    s': "s' = s\<lparr> positions := pos, velocities := vel, densities := ds,
              pressures := ps, forces := map (\<lambda>f. (0, 0, 0)) fs \<rparr>"
    by (rule update_Inr)
  note ir = integrate_motion_result[OF im]
  have eq: "(pos ! i, vel ! i) = (positions s ! i, velocities s ! i)" if "i < ?n" for i
  proof -
    have "positions s ! i \<in> set (positions s)" using that l by simp
    with c have "in_bounds (boundary_min s) (boundary_max s) (positions s ! i)"
      by (simp add: consistent_def)
    from integrate_particle_zero_dt[OF this] ir that l show ?thesis by simp
  qed
  have "pos = positions s"
  proof (rule nth_equalityI)
    show "length pos = length (positions s)" using ir by simp
    fix i assume "i < length pos"
    then have "i < ?n" using ir l by simp
    from eq[OF this] show "pos ! i = positions s ! i" by simp
  qed
  moreover have "vel = velocities s"
  proof (rule nth_equalityI)
    show "length vel = length (velocities s)" using ir by simp
    fix i assume "i < length vel"
    then have "i < ?n" using ir l by simp
    from eq[OF this] show "vel ! i = velocities s ! i" by simp
  qed
  ultimately show ?thesis using u s' by simp
qed

text \<open>
  C9, on \<open>lone_particle\<close> after one step of 0.01, when it moves: a further step with
  \<open>dt = 0\<close> returns and keeps position and velocity.
\<close>

theorem zero_dt_idempotent_witness:
  "\<exists>s s'. reachable s \<and> 0 < rest_density s \<and> velocities s = [(0, - 0.0981, 0)] \<and>
          update s 0 = Inr s' \<and>
          positions s' = positions s \<and> velocities s' = velocities s"
proof -
  let ?s = "lone_particle\<lparr> positions := [(0, - 0.000981, 0)], velocities := [(0, - 0.0981, 0)],
          densities := [100], pressures := [- 2700] \<rparr>"
  have r: "reachable ?s" by (rule reachable.stepped[OF reachable_lone update_lone])
  have rd: "0 < rest_density ?s" by (simp add: lone_particle_def)
  from zero_dt_idempotent[OF r rd] obtain s' where
    "update ?s 0 = Inr s' \<and> positions s' = positions ?s \<and> velocities s' = velocities ?s"
    by blast
  with r rd show ?thesis by (intro exI[of _ ?s] exI[of _ s']) simp
qed




end
